theory Spec2Isabelle
  imports Main "HOL-Library.Word"
begin

unbundle bit_operations_syntax

section \<open>The USB audio device of devices/dev-audio.c\<close>

text \<open>
  The embedding follows \<^verbatim>\<open>src/devices/dev-audio.c\<close>: the ring buffer
  (\<^verbatim>\<open>struct streambuf\<close> and its four functions), the alternate-setting
  transitions, the class-specific control requests and the data-out handler.
  C integers keep their width: \<^verbatim>\<open>uint8_t\<close>, \<^verbatim>\<open>uint16_t\<close> and
  \<^verbatim>\<open>uint32_t\<close> are words; arithmetic that C performs in \<^verbatim>\<open>int\<close> after
  integer promotion is written on \<open>nat\<close> where it cannot leave the range of
  a 32-bit \<^verbatim>\<open>int\<close>, and converted back to the width of the variable that
  receives it. Whatever aborts the program or has no defined behaviour in C
  (a failed \<^verbatim>\<open>assert\<close>, a remainder by zero, an access outside a buffer) is
  a value of type \<open>error\<close>.
\<close>

subsection \<open>Constants\<close>

type_synonym u8 = "8 word"
type_synonym u16 = "16 word"
type_synonym u32 = "32 word"
type_synonym u64 = "64 word"

datatype error = AssertionFailed | DivisionByZero | OutOfBounds | PacketTooShort

definition USBAUDIO_PACKET_SIZE :: nat where
  "USBAUDIO_PACKET_SIZE = 192"

text \<open>\<^verbatim>\<open>enum usb_audio_altset\<close>; the field that holds it is assigned from an
  \<^verbatim>\<open>int\<close>, so the model keeps the integer.\<close>

definition ALTSET_OFF :: int where
  "ALTSET_OFF = 0"

definition ALTSET_ON :: int where
  "ALTSET_ON = 1"

text \<open>Class-specific request codes and feature unit control selectors.\<close>

definition CR_SET_CUR :: u32 where "CR_SET_CUR = 0x01"
definition CR_GET_CUR :: u32 where "CR_GET_CUR = 0x81"
definition CR_GET_MIN :: u32 where "CR_GET_MIN = 0x82"
definition CR_GET_MAX :: u32 where "CR_GET_MAX = 0x83"
definition CR_GET_RES :: u32 where "CR_GET_RES = 0x84"

definition MUTE_CONTROL :: u32 where "MUTE_CONTROL = 0x01"
definition VOLUME_CONTROL :: u32 where "VOLUME_CONTROL = 0x02"

text \<open>Modelled from the spec: the status codes \<^verbatim>\<open>USB_RET_SUCCESS\<close> and
  \<^verbatim>\<open>USB_RET_STALL\<close> of \<^verbatim>\<open>usb.h\<close>, which is not part of the sources at
  hand. The stall code is the negative result that makes the caller stall the
  transfer (\<^verbatim>\<open>usb_audio_handle_control\<close> tests \<^verbatim>\<open>ret < 0\<close>).\<close>

definition USB_RET_SUCCESS :: int where
  "USB_RET_SUCCESS = 0"

definition USB_RET_STALL :: int where
  "USB_RET_STALL = - 3"

subsection \<open>Diagnostics\<close>

text \<open>Every \<^verbatim>\<open>fprintf(stderr, ...)\<close> of the modelled functions is one
  constructor, carrying the values the format string prints.\<close>

datatype diag =
    DiagSetInterface int
  | DiagSetInInterface int
  | DiagVol u16
  | DiagMute bool u8 u8
  | DiagOverrun nat

subsection \<open>The audio backend\<close>

text \<open>Modelled from the spec: the backend voice behind the borrowed handles
  \<^verbatim>\<open>SWVoiceOut *\<close> and \<^verbatim>\<open>SWVoiceIn *\<close> (\<^verbatim>\<open>audio/audio.h\<close>, not part of
  the sources at hand). The model keeps what the device pushes to it:
  whether the voice is active, and the mute flag and the two volumes.\<close>

record voice =
  voice_active :: bool
  voice_mute :: bool
  voice_lvol :: u8
  voice_rvol :: u8

definition AUD_set_active_out :: "voice \<Rightarrow> bool \<Rightarrow> voice" where
  "AUD_set_active_out v on = v\<lparr>voice_active := on\<rparr>"

definition AUD_set_active_in :: "voice \<Rightarrow> bool \<Rightarrow> voice" where
  "AUD_set_active_in v on = v\<lparr>voice_active := on\<rparr>"

definition AUD_set_volume_out :: "voice \<Rightarrow> bool \<Rightarrow> u8 \<Rightarrow> u8 \<Rightarrow> voice" where
  "AUD_set_volume_out v m l r = v\<lparr>voice_mute := m, voice_lvol := l, voice_rvol := r\<rparr>"

definition AUD_set_volume_in :: "voice \<Rightarrow> bool \<Rightarrow> u8 \<Rightarrow> u8 \<Rightarrow> voice" where
  "AUD_set_volume_in v m l r = v\<lparr>voice_mute := m, voice_lvol := l, voice_rvol := r\<rparr>"

subsection \<open>The ring buffer\<close>

text \<open>\<^verbatim>\<open>struct streambuf\<close>. The fields are \<^verbatim>\<open>data\<close>, \<^verbatim>\<open>size\<close>,
  \<^verbatim>\<open>prod\<close> and \<^verbatim>\<open>cons\<close>; the storage that \<^verbatim>\<open>data\<close> points to is the
  list of its bytes (empty for a null pointer).\<close>

record streambuf =
  buf_data :: "u8 list"
  buf_size :: u32
  buf_prod :: u32
  buf_cons :: u32

text \<open>Modelled from the spec: the transport packet \<^verbatim>\<open>USBPacket\<close> of
  \<^verbatim>\<open>usb.h\<close>, reduced to the fields the device reads and writes: the payload
  (\<^verbatim>\<open>iov\<close>, with \<^verbatim>\<open>iov.size\<close> its length), the number of bytes transferred
  so far and the status.\<close>

record USBPacket =
  iov :: "u8 list"
  actual_length :: nat
  status :: int

text \<open>Modelled from the spec: \<^verbatim>\<open>usb_packet_copy\<close> of the USB core (not part
  of the sources at hand), in the host-to-device direction, the one
  \<^verbatim>\<open>streambuf_put\<close> is reached with: it copies \<open>bytes\<close> bytes of the
  payload, from \<^verbatim>\<open>actual_length\<close> on, to the memory \<open>mem\<close> at offset
  \<open>off\<close>, and advances \<^verbatim>\<open>actual_length\<close>. A payload that does not hold that
  many bytes and a destination that leaves the storage are errors.\<close>

definition usb_packet_copy ::
  "USBPacket \<Rightarrow> u8 list \<Rightarrow> nat \<Rightarrow> nat \<Rightarrow> error + (USBPacket \<times> u8 list)" where
  "usb_packet_copy p mem off bytes =
     (if length (iov p) < actual_length p + bytes then Inl PacketTooShort
      else if length mem < off + bytes then Inl OutOfBounds
      else Inr (p\<lparr>actual_length := actual_length p + bytes\<rparr>,
                take off mem @ take bytes (drop (actual_length p) (iov p))
                  @ drop (off + bytes) mem))"

text \<open>\<^verbatim>\<open>streambuf_init\<close>. The bytes of fresh storage are unspecified in C;
  the model fills them with zeros, and no theorem below depends on them.\<close>

definition streambuf_init :: "streambuf \<Rightarrow> u32 \<Rightarrow> streambuf" where
  "streambuf_init buf sz =
     (let size' = sz - (sz mod of_nat USBAUDIO_PACKET_SIZE)
      in buf\<lparr>buf_size := size', buf_data := replicate (unat size') 0,
              buf_prod := 0, buf_cons := 0\<rparr>)"

text \<open>\<^verbatim>\<open>streambuf_put\<close>: the number of bytes written, the buffer and the
  packet.\<close>

definition streambuf_put ::
  "streambuf \<Rightarrow> USBPacket \<Rightarrow> error + (int \<times> streambuf \<times> USBPacket)" where
  "streambuf_put buf p =
     (let free = buf_size buf - (buf_prod buf - buf_cons buf)
      in if free = 0 then Inr (0, buf, p)
         else if \<not> (of_nat USBAUDIO_PACKET_SIZE \<le> free) then Inl AssertionFailed
         else if buf_size buf = 0 then Inl DivisionByZero
         else (case usb_packet_copy p (buf_data buf)
                      (unat (buf_prod buf mod buf_size buf)) USBAUDIO_PACKET_SIZE of
                 Inl e \<Rightarrow> Inl e
               | Inr (p', mem) \<Rightarrow>
                   Inr (int USBAUDIO_PACKET_SIZE,
                        buf\<lparr>buf_data := mem,
                            buf_prod := buf_prod buf + of_nat USBAUDIO_PACKET_SIZE\<rparr>,
                        p')))"

text \<open>\<^verbatim>\<open>streambuf_get\<close>: the returned pointer is its offset into the
  storage, \<open>None\<close> for \<^verbatim>\<open>NULL\<close>. The length is a \<^verbatim>\<open>size_t\<close>, and the
  comparison with \<^verbatim>\<open>used\<close> is made at that width.\<close>

definition streambuf_get :: "streambuf \<Rightarrow> u64 \<Rightarrow> error + (nat option \<times> streambuf)" where
  "streambuf_get buf len =
     (let used = buf_prod buf - buf_cons buf
      in if used = 0 \<or> (ucast used :: u64) < len then Inr (None, buf)
         else if buf_size buf = 0 then Inl DivisionByZero
         else Inr (Some (unat (buf_cons buf mod buf_size buf)),
                   buf\<lparr>buf_cons := buf_cons buf + ucast len\<rparr>))"

text \<open>\<^verbatim>\<open>streambuf_alloc\<close>: the length is an \<^verbatim>\<open>int\<close>, which the comparison
  with the unsigned \<^verbatim>\<open>free\<close> and the addition to \<^verbatim>\<open>prod\<close> both convert to
  \<^verbatim>\<open>uint32_t\<close>; \<open>len\<close> is that converted value.\<close>

definition streambuf_alloc :: "streambuf \<Rightarrow> u32 \<Rightarrow> error + (nat option \<times> streambuf)" where
  "streambuf_alloc buf len =
     (let free = buf_size buf - (buf_prod buf - buf_cons buf)
      in if free = 0 \<or> free < len then Inr (None, buf)
         else if buf_size buf = 0 then Inl DivisionByZero
         else Inr (Some (unat (buf_prod buf mod buf_size buf)),
                   buf\<lparr>buf_prod := buf_prod buf + len\<rparr>))"

subsection \<open>The device state\<close>

text \<open>\<^verbatim>\<open>USBAudioState\<close>, with its two anonymous structs \<^verbatim>\<open>out\<close> and
  \<^verbatim>\<open>in\<close>. The array \<^verbatim>\<open>out.vol[2]\<close> is a pair. The audio settings
  \<^verbatim>\<open>as\<close> are written once at realize time and read by no function below;
  they are left out. \<open>stderr\<close> collects the diagnostics, oldest first.\<close>

record usb_audio_out =
  out_altset :: int
  out_voice :: voice
  out_mute :: bool
  out_vol :: "u8 \<times> u8"
  out_buf :: streambuf

record usb_audio_in =
  in_altset :: int
  in_voice :: voice
  in_mute :: bool
  in_vol :: u8
  in_buf :: streambuf

record USBAudioState =
  out :: usb_audio_out
  inp :: usb_audio_in
  debug :: u32
  buffer :: u32
  stderr :: "diag list"

text \<open>Reading and writing \<^verbatim>\<open>vol[cn]\<close>; every access in the source is
  guarded by \<^verbatim>\<open>cn < 2\<close>.\<close>

definition vol_nth :: "u8 \<times> u8 \<Rightarrow> u8 \<Rightarrow> u8" where
  "vol_nth v cn = (if cn = 0 then fst v else snd v)"

definition vol_upd :: "u8 \<times> u8 \<Rightarrow> u8 \<Rightarrow> u8 \<Rightarrow> u8 \<times> u8" where
  "vol_upd v cn x = (if cn = 0 then (x, snd v) else (fst v, x))"

definition fprintf_stderr :: "USBAudioState \<Rightarrow> diag \<Rightarrow> USBAudioState" where
  "fprintf_stderr s d = s\<lparr>stderr := stderr s @ [d]\<rparr>"

subsection \<open>Alternate settings\<close>

definition usb_audio_set_output_altset :: "USBAudioState \<Rightarrow> int \<Rightarrow> int \<times> USBAudioState" where
  "usb_audio_set_output_altset s altset =
     (case (if altset = ALTSET_OFF
            then Some (s\<lparr>out := (out s)\<lparr>out_buf := streambuf_init (out_buf (out s)) (buffer s),
                                         out_voice := AUD_set_active_out (out_voice (out s)) False\<rparr>\<rparr>)
            else if altset = ALTSET_ON
            then Some (s\<lparr>out := (out s)\<lparr>out_voice := AUD_set_active_out (out_voice (out s)) True\<rparr>\<rparr>)
            else None) of
        None \<Rightarrow> (- 1, s)
      | Some s1 \<Rightarrow>
          let s2 = (if debug s1 \<noteq> 0 then fprintf_stderr s1 (DiagSetInterface altset) else s1)
          in (0, s2\<lparr>out := (out s2)\<lparr>out_altset := altset\<rparr>\<rparr>))"

definition usb_audio_set_input_altset :: "USBAudioState \<Rightarrow> int \<Rightarrow> int \<times> USBAudioState" where
  "usb_audio_set_input_altset s altset =
     (case (if altset = ALTSET_OFF
            then Some (s\<lparr>inp := (inp s)\<lparr>in_buf := streambuf_init (in_buf (inp s)) (buffer s),
                                         in_voice := AUD_set_active_in (in_voice (inp s)) False\<rparr>\<rparr>)
            else if altset = ALTSET_ON
            then Some (s\<lparr>inp := (inp s)\<lparr>in_voice := AUD_set_active_in (in_voice (inp s)) True\<rparr>\<rparr>)
            else None) of
        None \<Rightarrow> (- 1, s)
      | Some s1 \<Rightarrow>
          let s2 = (if debug s1 \<noteq> 0 then fprintf_stderr s1 (DiagSetInInterface altset) else s1)
          in (0, s2\<lparr>inp := (inp s2)\<lparr>in_altset := altset\<rparr>\<rparr>))"

text \<open>\<^verbatim>\<open>usb_audio_set_interface\<close> returns \<^verbatim>\<open>void\<close>: the result of the
  transition function is dropped, and the state is all that is left.\<close>

definition usb_audio_set_interface :: "USBAudioState \<Rightarrow> int \<Rightarrow> int \<Rightarrow> int \<Rightarrow> USBAudioState" where
  "usb_audio_set_interface s iface old val =
     (if iface = 1 then snd (usb_audio_set_output_altset s val)
      else if iface = 2 then snd (usb_audio_set_input_altset s val)
      else s)"

subsection \<open>Class-specific control requests\<close>

text \<open>The macro \<^verbatim>\<open>ATTRIB_ID\<close>. Its arguments are promoted to \<^verbatim>\<open>int\<close> and
  the result is stored in a \<^verbatim>\<open>uint32_t\<close>; the model works at that width
  throughout, so a selector of 128 and above keeps its bit pattern.\<close>

definition ATTRIB_ID :: "u32 \<Rightarrow> u32 \<Rightarrow> u32 \<Rightarrow> u32" where
  "ATTRIB_ID cs attrib idif = push_bit 24 cs OR push_bit 16 attrib OR idif"

text \<open>The first three lines of both control functions:
  \<^verbatim>\<open>cs = cscn >> 8\<close>, \<^verbatim>\<open>cn = cscn - 1\<close> (both stored in a
  \<^verbatim>\<open>uint8_t\<close>) and \<^verbatim>\<open>aid = ATTRIB_ID(cs, attrib, idif)\<close>.\<close>

definition control_cs :: "u16 \<Rightarrow> u8" where
  "control_cs cscn = ucast (drop_bit 8 cscn)"

definition control_cn :: "u16 \<Rightarrow> u8" where
  "control_cn cscn = ucast (cscn - 1)"

definition control_aid :: "u8 \<Rightarrow> u16 \<Rightarrow> u16 \<Rightarrow> u32" where
  "control_aid attrib cscn idif = ATTRIB_ID (ucast (control_cs cscn)) (ucast attrib) (ucast idif)"

text \<open>Writing the reply \<open>bs\<close> to \<^verbatim>\<open>data[0]\<close>, \<^verbatim>\<open>data[1]\<close>, ... and returning
  its length, as every successful branch of \<^verbatim>\<open>usb_audio_get_control\<close>
  does.\<close>

definition reply ::
  "USBAudioState \<Rightarrow> u8 list \<Rightarrow> u8 list \<Rightarrow> error + (int \<times> USBAudioState \<times> u8 list)" where
  "reply s data bs =
     (if length data < length bs then Inl OutOfBounds
      else Inr (int (length bs), s, bs @ drop (length bs) data))"

text \<open>The volume code of GET CUR:
  \<^verbatim>\<open>uint16_t vol = (vol[cn] * 0x8800 + 127) / 255 + 0x8000\<close>, computed in
  \<^verbatim>\<open>int\<close> and cut to 16 bits.\<close>

definition encode_vol :: "u8 \<Rightarrow> u16" where
  "encode_vol v = of_nat ((unat v * 0x8800 + 127) div 255 + 0x8000)"

text \<open>The volume of SET CUR: \<^verbatim>\<open>vol = data[0] + (data[1] << 8)\<close>,
  \<^verbatim>\<open>vol -= 0x8000\<close>, \<^verbatim>\<open>vol = (vol * 255 + 0x4400) / 0x8800\<close>, each stored in
  the \<^verbatim>\<open>uint16_t vol\<close>, then the cap at 255.\<close>

definition wire_vol :: "u8 list \<Rightarrow> u16" where
  "wire_vol data = of_nat (unat (data ! 0) + push_bit 8 (unat (data ! 1)))"

definition decode_vol :: "u16 \<Rightarrow> u16" where
  "decode_vol vol0 =
     (let vol1 = vol0 - 0x8000;
          vol2 = (of_nat ((unat vol1 * 255 + 0x4400) div 0x8800) :: u16)
      in if vol2 > 255 then 255 else vol2)"

definition usb_audio_get_control ::
  "USBAudioState \<Rightarrow> u8 \<Rightarrow> u16 \<Rightarrow> u16 \<Rightarrow> int \<Rightarrow> u8 list
     \<Rightarrow> error + (int \<times> USBAudioState \<times> u8 list)" where
  "usb_audio_get_control s attrib cscn idif len data =
     (let cn = control_cn cscn;
          aid = control_aid attrib cscn idif;
          stall = Inr (USB_RET_STALL, s, data)
      in if aid = ATTRIB_ID MUTE_CONTROL CR_GET_CUR 0x0200 then
           reply s data [if out_mute (out s) then 1 else 0]
         else if aid = ATTRIB_ID VOLUME_CONTROL CR_GET_CUR 0x0200 then
           (if cn < 2 then
              (let vol = encode_vol (vol_nth (out_vol (out s)) cn)
               in reply s data [ucast vol, ucast (drop_bit 8 vol)])
            else stall)
         else if aid = ATTRIB_ID VOLUME_CONTROL CR_GET_MIN 0x0200 then
           (if cn < 2 then reply s data [0x01, 0x80] else stall)
         else if aid = ATTRIB_ID VOLUME_CONTROL CR_GET_MAX 0x0200 then
           (if cn < 2 then reply s data [0x00, 0x08] else stall)
         else if aid = ATTRIB_ID VOLUME_CONTROL CR_GET_RES 0x0200 then
           (if cn < 2 then reply s data [0x88, 0x00] else stall)
         else if aid = ATTRIB_ID MUTE_CONTROL CR_GET_CUR 0x0500 then
           reply s data [if in_mute (inp s) then 1 else 0]
         else if aid = ATTRIB_ID VOLUME_CONTROL CR_GET_CUR 0x0500 then
           (if cn < 2 then
              (let vol = encode_vol (vol_nth (out_vol (out s)) cn)
               in reply s data [ucast vol, ucast (drop_bit 8 vol)])
            else stall)
         else if aid = ATTRIB_ID VOLUME_CONTROL CR_GET_MIN 0x0500 then
           (if cn < 2 then reply s data [0x01, 0x80] else stall)
         else if aid = ATTRIB_ID VOLUME_CONTROL CR_GET_MAX 0x0500 then
           (if cn < 2 then reply s data [0x00] else stall)
         else if aid = ATTRIB_ID VOLUME_CONTROL CR_GET_RES 0x0500 then
           (if cn < 2 then reply s data [0x88, 0x00] else stall)
         else stall)"

text \<open>The tail of \<^verbatim>\<open>usb_audio_set_control\<close>, reached with \<^verbatim>\<open>set_vol\<close>
  true: the diagnostic line with the playback mute flag and volumes.\<close>

definition set_vol_diag :: "USBAudioState \<Rightarrow> USBAudioState" where
  "set_vol_diag s =
     (if debug s \<noteq> 0
      then fprintf_stderr s (DiagMute (out_mute (out s)) (fst (out_vol (out s))) (snd (out_vol (out s))))
      else s)"

definition push_volume_out :: "USBAudioState \<Rightarrow> USBAudioState" where
  "push_volume_out s =
     s\<lparr>out := (out s)\<lparr>out_voice :=
          AUD_set_volume_out (out_voice (out s)) (out_mute (out s))
            (fst (out_vol (out s))) (snd (out_vol (out s)))\<rparr>\<rparr>"

definition push_volume_in :: "USBAudioState \<Rightarrow> USBAudioState" where
  "push_volume_in s =
     s\<lparr>inp := (inp s)\<lparr>in_voice :=
          AUD_set_volume_in (in_voice (inp s)) (in_mute (inp s))
            (in_vol (inp s)) (in_vol (inp s))\<rparr>\<rparr>"

definition usb_audio_set_control ::
  "USBAudioState \<Rightarrow> u8 \<Rightarrow> u16 \<Rightarrow> u16 \<Rightarrow> int \<Rightarrow> u8 list
     \<Rightarrow> error + (int \<times> USBAudioState \<times> u8 list)" where
  "usb_audio_set_control s attrib cscn idif len data =
     (let cn = control_cn cscn;
          aid = control_aid attrib cscn idif;
          stall = Inr (USB_RET_STALL, s, data)
      in if aid = ATTRIB_ID MUTE_CONTROL CR_SET_CUR 0x0200 then
           (if length data < 1 then Inl OutOfBounds
            else
              let s1 = s\<lparr>out := (out s)\<lparr>out_mute := (data ! 0 AND 1 \<noteq> 0)\<rparr>\<rparr>
              in Inr (0, set_vol_diag (push_volume_out s1), data))
         else if aid = ATTRIB_ID VOLUME_CONTROL CR_SET_CUR 0x0200 then
           (if cn < 2 then
              (if length data < 2 then Inl OutOfBounds
               else
                 let vol = wire_vol data;
                     s1 = (if debug s \<noteq> 0 then fprintf_stderr s (DiagVol vol) else s);
                     vol = decode_vol vol;
                     s2 = s1\<lparr>out := (out s1)\<lparr>out_vol := vol_upd (out_vol (out s1)) cn (ucast vol)\<rparr>\<rparr>
                 in Inr (0, set_vol_diag (push_volume_out s2), data))
            else stall)
         else if aid = ATTRIB_ID MUTE_CONTROL CR_SET_CUR 0x0500 then
           (if length data < 1 then Inl OutOfBounds
            else
              let s1 = s\<lparr>inp := (inp s)\<lparr>in_mute := (data ! 0 AND 1 \<noteq> 0)\<rparr>\<rparr>
              in Inr (0, set_vol_diag (push_volume_in s1), data))
         else if aid = ATTRIB_ID VOLUME_CONTROL CR_SET_CUR 0x0500 then
           (if cn < 2 then
              (if length data < 2 then Inl OutOfBounds
               else
                 let vol = wire_vol data;
                     s1 = (if debug s \<noteq> 0 then fprintf_stderr s (DiagVol vol) else s);
                     vol = decode_vol vol;
                     s2 = s1\<lparr>inp := (inp s1)\<lparr>in_vol := ucast vol\<rparr>\<rparr>
                 in Inr (0, set_vol_diag (push_volume_in s2), data))
            else stall)
         else stall)"

subsection \<open>Playback data\<close>

text \<open>\<^verbatim>\<open>usb_audio_handle_dataout\<close>: the state and the packet.\<close>

definition usb_audio_handle_dataout ::
  "USBAudioState \<Rightarrow> USBPacket \<Rightarrow> error + (USBAudioState \<times> USBPacket)" where
  "usb_audio_handle_dataout s p =
     (if out_altset (out s) = ALTSET_OFF then Inr (s, p\<lparr>status := USB_RET_STALL\<rparr>)
      else
        (case streambuf_put (out_buf (out s)) p of
           Inl e \<Rightarrow> Inl e
         | Inr (n, b, p') \<Rightarrow>
             let s1 = s\<lparr>out := (out s)\<lparr>out_buf := b\<rparr>\<rparr>
             in Inr (if actual_length p' < length (iov p') \<and> 1 < debug s1
                     then fprintf_stderr s1 (DiagOverrun (length (iov p') - actual_length p'))
                     else s1,
                     p')))"

subsection \<open>Supported requests, operation sequences and sample inputs\<close>

text \<open>The \<^verbatim>\<open>case\<close> labels of the two \<^verbatim>\<open>switch (aid)\<close> statements, in the
  order of the source.\<close>

definition get_supported :: "u32 list" where
  "get_supported =
     [ATTRIB_ID MUTE_CONTROL CR_GET_CUR 0x0200,
      ATTRIB_ID VOLUME_CONTROL CR_GET_CUR 0x0200,
      ATTRIB_ID VOLUME_CONTROL CR_GET_MIN 0x0200,
      ATTRIB_ID VOLUME_CONTROL CR_GET_MAX 0x0200,
      ATTRIB_ID VOLUME_CONTROL CR_GET_RES 0x0200,
      ATTRIB_ID MUTE_CONTROL CR_GET_CUR 0x0500,
      ATTRIB_ID VOLUME_CONTROL CR_GET_CUR 0x0500,
      ATTRIB_ID VOLUME_CONTROL CR_GET_MIN 0x0500,
      ATTRIB_ID VOLUME_CONTROL CR_GET_MAX 0x0500,
      ATTRIB_ID VOLUME_CONTROL CR_GET_RES 0x0500]"

definition set_supported :: "u32 list" where
  "set_supported =
     [ATTRIB_ID MUTE_CONTROL CR_SET_CUR 0x0200,
      ATTRIB_ID VOLUME_CONTROL CR_SET_CUR 0x0200,
      ATTRIB_ID MUTE_CONTROL CR_SET_CUR 0x0500,
      ATTRIB_ID VOLUME_CONTROL CR_SET_CUR 0x0500]"

text \<open>A sequence of ring buffer operations. A step yields the buffer the
  operation leaves behind when it returns, whatever it returns, and \<open>None\<close>
  when it does not return.\<close>

datatype sb_op = Put USBPacket | Get u64 | Alloc u32

fun sb_step :: "streambuf \<Rightarrow> sb_op \<Rightarrow> streambuf option" where
  "sb_step b (Put p) =
     (case streambuf_put b p of Inl e \<Rightarrow> None | Inr (n, b', p') \<Rightarrow> Some b')"
| "sb_step b (Get len) =
     (case streambuf_get b len of Inl e \<Rightarrow> None | Inr (r, b') \<Rightarrow> Some b')"
| "sb_step b (Alloc len) =
     (case streambuf_alloc b len of Inl e \<Rightarrow> None | Inr (r, b') \<Rightarrow> Some b')"

fun sb_run :: "streambuf \<Rightarrow> sb_op list \<Rightarrow> streambuf option" where
  "sb_run b [] = Some b"
| "sb_run b (x # xs) = (case sb_step b x of None \<Rightarrow> None | Some b' \<Rightarrow> sb_run b' xs)"

text \<open>The decoding of SET CUR as the specification words it, on unbounded
  integers: \<open>(code - 0x8000) * 255 / 0x8800\<close> rounded to nearest by the bias
  \<open>0x4400\<close>, clamped to the range from 0 to 255. It is kept apart from
  \<open>decode_vol\<close>, which is the source.\<close>

definition spec_set_cur_volume :: "int \<Rightarrow> int" where
  "spec_set_cur_volume code = max 0 (min 255 (((code - 0x8000) * 255 + 0x4400) div 0x8800))"

text \<open>The cursor invariant of the ring buffer: the number of bytes in use,
  \<^verbatim>\<open>prod - cons\<close> in 32-bit arithmetic, does not exceed the size.\<close>

definition cursors_ok :: "streambuf \<Rightarrow> bool" where
  "cursors_ok b \<longleftrightarrow> buf_prod b - buf_cons b \<le> buf_size b"

text \<open>Sample inputs: a device state with every field zero, as the object
  system allocates it, and a packet that carries the payload \<open>bs\<close> and has
  transferred nothing yet.\<close>

definition blank :: USBAudioState where
  "blank =
     \<lparr>out = \<lparr>out_altset = 0,
              out_voice = \<lparr>voice_active = False, voice_mute = False,
                           voice_lvol = 0, voice_rvol = 0\<rparr>,
              out_mute = False, out_vol = (0, 0),
              out_buf = \<lparr>buf_data = [], buf_size = 0, buf_prod = 0, buf_cons = 0\<rparr>\<rparr>,
      inp = \<lparr>in_altset = 0,
              in_voice = \<lparr>voice_active = False, voice_mute = False,
                          voice_lvol = 0, voice_rvol = 0\<rparr>,
              in_mute = False, in_vol = 0,
              in_buf = \<lparr>buf_data = [], buf_size = 0, buf_prod = 0, buf_cons = 0\<rparr>\<rparr>,
      debug = 0, buffer = 0, stderr = []\<rparr>"

definition fresh_packet :: "u8 list \<Rightarrow> USBPacket" where
  "fresh_packet bs = \<lparr>iov = bs, actual_length = 0, status = USB_RET_SUCCESS\<rparr>"

section \<open>Control requests\<close>

subsection \<open>Request identifiers\<close>

lemmas control_consts =
  ATTRIB_ID_def MUTE_CONTROL_def VOLUME_CONTROL_def CR_SET_CUR_def CR_GET_CUR_def
  CR_GET_MIN_def CR_GET_MAX_def CR_GET_RES_def

text \<open>The selector is the top byte of the request identifier, so a volume
  request never meets a mute label.\<close>

lemma aid_top: "drop_bit 24 (control_aid attrib cscn idif) = ucast (control_cs cscn)"
  unfolding control_aid_def ATTRIB_ID_def
  by (rule bit_word_eqI) (auto simp: bit_simps dest: bit_imp_le_length)

lemma mute_aids:
  "drop_bit 24 (ATTRIB_ID MUTE_CONTROL CR_GET_CUR 0x0200) = 1"
  "drop_bit 24 (ATTRIB_ID MUTE_CONTROL CR_GET_CUR 0x0500) = 1"
  "drop_bit 24 (ATTRIB_ID MUTE_CONTROL CR_SET_CUR 0x0200) = 1"
  "drop_bit 24 (ATTRIB_ID MUTE_CONTROL CR_SET_CUR 0x0500) = 1"
  by (simp_all add: control_consts)

lemma volume_aid_not_mute:
  assumes "control_cs cscn = 2"
  shows "control_aid attrib cscn idif \<noteq> ATTRIB_ID MUTE_CONTROL CR_GET_CUR 0x0200"
    and "control_aid attrib cscn idif \<noteq> ATTRIB_ID MUTE_CONTROL CR_GET_CUR 0x0500"
    and "control_aid attrib cscn idif \<noteq> ATTRIB_ID MUTE_CONTROL CR_SET_CUR 0x0200"
    and "control_aid attrib cscn idif \<noteq> ATTRIB_ID MUTE_CONTROL CR_SET_CUR 0x0500"
  using aid_top [of attrib cscn idif] assms mute_aids by auto

lemma cscn_split:
  "(cscn :: u16) = push_bit 8 (ucast (control_cs cscn)) OR ucast (ucast cscn :: u8)"
  unfolding control_cs_def
  by (rule bit_word_eqI) (auto simp: bit_simps)

subsection \<open>Requests that stall\<close>

lemma get_stall_unsupported:
  assumes "control_aid attrib cscn idif \<notin> set get_supported"
  shows "usb_audio_get_control s attrib cscn idif len data = Inr (USB_RET_STALL, s, data)"
  using assms by (simp add: usb_audio_get_control_def get_supported_def Let_def)

lemma set_stall_unsupported:
  assumes "control_aid attrib cscn idif \<notin> set set_supported"
  shows "usb_audio_set_control s attrib cscn idif len data = Inr (USB_RET_STALL, s, data)"
  using assms by (simp add: usb_audio_set_control_def set_supported_def Let_def)

lemma get_stall_channel:
  assumes "control_cs cscn = 2" and "\<not> control_cn cscn < 2"
  shows "usb_audio_get_control s attrib cscn idif len data = Inr (USB_RET_STALL, s, data)"
  using assms volume_aid_not_mute [OF assms(1), of attrib idif]
  by (simp add: usb_audio_get_control_def Let_def)

lemma set_stall_channel:
  assumes "control_cs cscn = 2" and "\<not> control_cn cscn < 2"
  shows "usb_audio_set_control s attrib cscn idif len data = Inr (USB_RET_STALL, s, data)"
  using assms volume_aid_not_mute [OF assms(1), of attrib idif]
  by (simp add: usb_audio_set_control_def Let_def)

lemma master_cn:
  assumes "control_cs cscn = 2" and "(ucast cscn :: u8) = 0"
  shows "control_cn cscn = 255"
proof -
  have "cscn = 0x0200"
    using cscn_split [of cscn] assms by simp
  then show ?thesis
    by (simp add: control_cn_def)
qed

text \<open>
  C10. A GET or SET request for the volume selector whose channel number, the
  low byte of \<^verbatim>\<open>wValue\<close>, is 0: the channel index \<^verbatim>\<open>cn\<close> wraps to 255, no
  test \<^verbatim>\<open>cn < 2\<close> passes, and both control functions return the stall
  result with the state and the data buffer as they were, whatever the
  attribute and the target.
\<close>

theorem master_channel_stalls:
  assumes "control_cs cscn = 2" and "(ucast cscn :: u8) = 0"
  shows "control_cn cscn = 255
       \<and> \<not> control_cn cscn < 2
       \<and> usb_audio_get_control s attrib cscn idif len data = Inr (USB_RET_STALL, s, data)
       \<and> usb_audio_set_control s attrib cscn idif len data = Inr (USB_RET_STALL, s, data)"
proof -
  have cn: "control_cn cscn = 255"
    using assms by (rule master_cn)
  then have "\<not> control_cn cscn < 2"
    by simp
  with cn show ?thesis
    using get_stall_channel [OF assms(1)] set_stall_channel [OF assms(1)] by simp
qed

theorem master_channel_stalls_witness:
  "control_cs 0x0200 = 2 \<and> (ucast (0x0200 :: u16) :: u8) = 0
   \<and> control_cn 0x0200 = 255
   \<and> usb_audio_get_control blank 0x81 0x0200 0x0200 2 [7, 7] = Inr (USB_RET_STALL, blank, [7, 7])
   \<and> usb_audio_set_control blank 0x01 0x0200 0x0200 2 [7, 7] = Inr (USB_RET_STALL, blank, [7, 7])"
proof -
  have a: "control_cs 0x0200 = 2" by (simp add: control_cs_def)
  have b: "(ucast (0x0200 :: u16) :: u8) = 0" by simp
  show ?thesis
    using master_channel_stalls [OF a b, of blank "0x81" "0x0200" 2 "[7, 7]"]
      master_channel_stalls [OF a b, of blank "0x01" "0x0200" 2 "[7, 7]"] a b
    by simp
qed

text \<open>
  C2, as the code has it. A request whose identifier is none of the
  \<^verbatim>\<open>case\<close> labels, or a request for the volume selector (2) whose channel
  index \<^verbatim>\<open>cn\<close> is 2 or more, returns the stall result from
  \<^verbatim>\<open>usb_audio_get_control\<close> and from \<^verbatim>\<open>usb_audio_set_control\<close>
  respectively, with the state and the data buffer as they were. The bound is
  2 for either unit, and the mute requests do not look at the channel index.
\<close>

theorem unsupported_control_stalls:
  "(control_aid attrib cscn idif \<notin> set get_supported \<or> control_cs cscn = 2 \<and> 2 \<le> control_cn cscn
      \<longrightarrow> usb_audio_get_control s attrib cscn idif len data = Inr (USB_RET_STALL, s, data))
 \<and> (control_aid attrib cscn idif \<notin> set set_supported \<or> control_cs cscn = 2 \<and> 2 \<le> control_cn cscn
      \<longrightarrow> usb_audio_set_control s attrib cscn idif len data = Inr (USB_RET_STALL, s, data))"
proof -
  have "\<not> control_cn cscn < 2" if "2 \<le> control_cn cscn"
    using that by (simp add: not_less)
  then show ?thesis
    by (auto simp: get_stall_unsupported set_stall_unsupported get_stall_channel set_stall_channel)
qed

theorem unsupported_control_stalls_witness:
  "control_aid 0x82 0x0100 0x0200 \<notin> set get_supported
   \<and> control_aid 0x81 0x0100 0x0200 \<notin> set set_supported
   \<and> usb_audio_get_control blank 0x82 0x0100 0x0200 1 [5] = Inr (USB_RET_STALL, blank, [5])
   \<and> usb_audio_set_control blank 0x81 0x0100 0x0200 1 [5] = Inr (USB_RET_STALL, blank, [5])
   \<and> (control_cs 0x0203 = 2 \<and> 2 \<le> control_cn 0x0203)
   \<and> usb_audio_get_control blank 0x81 0x0203 0x0200 2 [5, 6] = Inr (USB_RET_STALL, blank, [5, 6])
   \<and> usb_audio_set_control blank 0x01 0x0203 0x0500 2 [5, 6] = Inr (USB_RET_STALL, blank, [5, 6])"
proof -
  have a: "control_aid 0x82 0x0100 0x0200 \<notin> set get_supported"
    and a': "control_aid 0x81 0x0100 0x0200 \<notin> set set_supported"
    by (simp_all add: control_aid_def control_cs_def get_supported_def set_supported_def control_consts)
  have b: "control_cs 0x0203 = 2 \<and> 2 \<le> control_cn 0x0203"
    by (simp add: control_cs_def control_cn_def)
  show ?thesis
    using unsupported_control_stalls [of "0x82" "0x0100" "0x0200" blank 1 "[5]"]
      unsupported_control_stalls [of "0x81" "0x0100" "0x0200" blank 1 "[5]"]
      unsupported_control_stalls [of "0x81" "0x0203" "0x0200" blank 2 "[5, 6]"]
      unsupported_control_stalls [of "0x01" "0x0203" "0x0500" blank 2 "[5, 6]"] a a' b
    by simp
qed

text \<open>
  C2 as stated fails on the mute requests: SET CUR and GET CUR of the playback
  mute control with channel number 0, hence channel index 255, succeed, and
  the former changes the mute flag and pushes it to the voice.
\<close>

theorem mute_ignores_channel_counterexample:
  "2 \<le> control_cn 0x0100
   \<and> usb_audio_set_control blank 0x01 0x0100 0x0200 1 [1] =
       Inr (0,
            blank\<lparr>out := (out blank)\<lparr>out_mute := True,
                                       out_voice := (out_voice (out blank))\<lparr>voice_mute := True\<rparr>\<rparr>\<rparr>,
            [1])
   \<and> usb_audio_get_control blank 0x81 0x0100 0x0200 1 [9] = Inr (1, blank, [0])"
  by (simp add: control_cn_def control_aid_def control_cs_def control_consts
      usb_audio_set_control_def usb_audio_get_control_def Let_def reply_def
      blank_def set_vol_diag_def push_volume_out_def AUD_set_volume_out_def)

subsection \<open>Volume requests that succeed\<close>

lemma volume_aid:
  assumes "control_cs cscn = 2"
  shows "control_aid 0x81 cscn 0x0500 = ATTRIB_ID VOLUME_CONTROL CR_GET_CUR 0x0500"
    and "control_aid 0x81 cscn 0x0200 = ATTRIB_ID VOLUME_CONTROL CR_GET_CUR 0x0200"
    and "control_aid 0x01 cscn 0x0200 = ATTRIB_ID VOLUME_CONTROL CR_SET_CUR 0x0200"
  using assms by (simp_all add: control_aid_def control_consts)

lemma aid_distinct:
  "ATTRIB_ID VOLUME_CONTROL CR_GET_CUR 0x0500 \<notin>
     {ATTRIB_ID MUTE_CONTROL CR_GET_CUR 0x0200, ATTRIB_ID VOLUME_CONTROL CR_GET_CUR 0x0200,
      ATTRIB_ID VOLUME_CONTROL CR_GET_MIN 0x0200, ATTRIB_ID VOLUME_CONTROL CR_GET_MAX 0x0200,
      ATTRIB_ID VOLUME_CONTROL CR_GET_RES 0x0200, ATTRIB_ID MUTE_CONTROL CR_GET_CUR 0x0500}"
  "ATTRIB_ID VOLUME_CONTROL CR_GET_CUR 0x0200 \<noteq> ATTRIB_ID MUTE_CONTROL CR_GET_CUR 0x0200"
  "ATTRIB_ID VOLUME_CONTROL CR_SET_CUR 0x0200 \<noteq> ATTRIB_ID MUTE_CONTROL CR_SET_CUR 0x0200"
  by (simp_all add: control_consts)

lemma get_cur_capture:
  assumes "control_cs cscn = 2" and "control_cn cscn < 2" and "2 \<le> length data"
  shows "usb_audio_get_control s 0x81 cscn 0x0500 len data =
           Inr (2, s, ucast (encode_vol (vol_nth (out_vol (out s)) (control_cn cscn)))
                      # ucast (drop_bit 8 (encode_vol (vol_nth (out_vol (out s)) (control_cn cscn))))
                      # drop 2 data)"
  using assms(2,3) aid_distinct(1)
  by (simp add: usb_audio_get_control_def volume_aid [OF assms(1)] Let_def reply_def numeral_2_eq_2)

lemma get_cur_playback:
  assumes "control_cs cscn = 2" and "control_cn cscn < 2" and "2 \<le> length data"
  shows "usb_audio_get_control s 0x81 cscn 0x0200 len data =
           Inr (2, s, ucast (encode_vol (vol_nth (out_vol (out s)) (control_cn cscn)))
                      # ucast (drop_bit 8 (encode_vol (vol_nth (out_vol (out s)) (control_cn cscn))))
                      # drop 2 data)"
  using assms(2,3) aid_distinct(2)
  by (simp add: usb_audio_get_control_def volume_aid [OF assms(1)] Let_def reply_def numeral_2_eq_2)

lemma set_cur_playback:
  assumes "control_cs cscn = 2" and "control_cn cscn < 2" and "2 \<le> length data"
  shows "usb_audio_set_control s 0x01 cscn 0x0200 len data =
           Inr (0,
                set_vol_diag (push_volume_out
                  ((if debug s \<noteq> 0 then fprintf_stderr s (DiagVol (wire_vol data)) else s)
                    \<lparr>out := (out s)\<lparr>out_vol :=
                       vol_upd (out_vol (out s)) (control_cn cscn) (ucast (decode_vol (wire_vol data)))\<rparr>\<rparr>)),
                data)"
  using assms(2,3) aid_distinct(3)
  by (simp add: usb_audio_set_control_def volume_aid [OF assms(1)] Let_def fprintf_stderr_def)

lemma wire_vol_bytes: "wire_vol (ucast w # ucast (drop_bit 8 w) # xs) = (w :: u16)"
proof -
  have w: "unat w < 65536"
    using unsigned_less [of w, where 'a = nat] by simp
  have "unat (drop_bit 8 w) = unat w div 256"
    by (simp add: drop_bit_eq_div unat_div_distrib)
  then have d: "unat (ucast (drop_bit 8 w) :: u8) = unat w div 256"
    using w by (simp only: unsigned_ucast_eq take_bit_eq_mod) simp
  have m: "unat (ucast w :: u8) = unat w mod 256"
    by (simp add: unsigned_ucast_eq take_bit_eq_mod)
  have "unat (ucast w :: u8) + push_bit 8 (unat (ucast (drop_bit 8 w) :: u8)) = unat w"
    unfolding d m by (simp add: push_bit_eq_mult)
  then show ?thesis by (simp add: wire_vol_def)
qed

lemma sample_cscn: "control_cs 0x0201 = 2" "control_cn 0x0201 = 0" "control_cs 0x0202 = 2" "control_cn 0x0202 = 1"
  by (simp_all add: control_cs_def control_cn_def)

text \<open>
  C9. GET CUR of the volume control aimed at the capture unit
  (\<^verbatim>\<open>wIndex = 0x0500\<close>) with a channel index below 2 returns 2 and writes,
  low byte first, the code of the playback volume \<^verbatim>\<open>out.vol[cn]\<close>; the
  reply is the same whatever the capture volume \<^verbatim>\<open>in.vol\<close> holds.
\<close>

theorem capture_get_cur_reads_playback_volume:
  assumes "control_cs cscn = 2" and "control_cn cscn < 2" and "2 \<le> length data"
  shows "\<exists>d. usb_audio_get_control s 0x81 cscn 0x0500 len data = Inr (2, s, d)
           \<and> length d = length data \<and> drop 2 d = drop 2 data
           \<and> wire_vol d = encode_vol (vol_nth (out_vol (out s)) (control_cn cscn))
           \<and> (\<forall>x. usb_audio_get_control (s\<lparr>inp := (inp s)\<lparr>in_vol := x\<rparr>\<rparr>) 0x81 cscn 0x0500 len data
                      = Inr (2, s\<lparr>inp := (inp s)\<lparr>in_vol := x\<rparr>\<rparr>, d))"
  using assms(3)
  by (simp add: get_cur_capture [OF assms] wire_vol_bytes)

theorem capture_get_cur_reads_playback_volume_witness:
  "control_cs 0x0201 = 2 \<and> control_cn 0x0201 < 2 \<and> 2 \<le> length [0, 0 :: u8]
   \<and> (\<exists>d. usb_audio_get_control (blank\<lparr>out := (out blank)\<lparr>out_vol := (255, 0)\<rparr>\<rparr>) 0x81 0x0201 0x0500 2 [0, 0]
             = Inr (2, blank\<lparr>out := (out blank)\<lparr>out_vol := (255, 0)\<rparr>\<rparr>, d)
           \<and> wire_vol d = 0x0800)"
proof -
  have a: "control_cs 0x0201 = 2" and b: "control_cn 0x0201 < 2" and c: "2 \<le> length [0, 0 :: u8]"
    by (simp_all add: sample_cscn)
  have e: "encode_vol 255 = 0x0800"
    by (simp add: encode_vol_def)
  show ?thesis
    using capture_get_cur_reads_playback_volume
      [OF a b c, of "blank\<lparr>out := (out blank)\<lparr>out_vol := (255, 0)\<rparr>\<rparr>" 2] a b c e
    by (auto simp: sample_cscn vol_nth_def)
qed

subsection \<open>The volume code\<close>

lemma uint_wire_vol: "uint (wire_vol data) = uint (data ! 0) + 256 * uint (data ! 1)"
proof -
  have "unat (data ! 0) < 256" and "unat (data ! 1) < 256"
    using unsigned_less [of "data ! 0", where 'a = nat] unsigned_less [of "data ! 1", where 'a = nat]
    by simp_all
  then have "unat (data ! 0) + 256 * unat (data ! 1) < 65536"
    by simp
  then have "unat (wire_vol data) = unat (data ! 0) + 256 * unat (data ! 1)"
    by (simp only: wire_vol_def unat_of_nat) (simp add: push_bit_eq_mult)
  then have "int (unat (wire_vol data)) = int (unat (data ! 0) + 256 * unat (data ! 1))"
    by (rule arg_cong)
  then show ?thesis
    by simp
qed

lemma uint_minus_offset: "uint (w - 0x8000 :: u16) = (uint w - 0x8000) mod 0x10000"
  by (simp add: uint_word_ariths)

lemma unat_decode_vol:
  "unat (ucast (decode_vol w) :: u8) = min 255 ((unat (w - 0x8000) * 255 + 0x4400) div 0x8800)"
proof -
  let ?q = "(unat (w - 0x8000) * 255 + 0x4400) div 0x8800"
  have "unat (w - 0x8000) < 65536"
    using unsigned_less [of "w - 0x8000", where 'a = nat] by simp
  then have q: "?q < 65536"
    by simp
  then have u: "unat (of_nat ?q :: u16) = ?q"
    by (simp add: unat_of_nat)
  show ?thesis
  proof (cases "255 < ?q")
    case True
    then have "decode_vol w = 255"
      using u by (simp add: decode_vol_def Let_def word_less_nat_alt)
    with True show ?thesis by simp
  next
    case False
    then have "decode_vol w = of_nat ?q"
      using u by (simp add: decode_vol_def Let_def word_less_nat_alt)
    moreover have "unat (ucast (of_nat ?q :: u16) :: u8) = ?q"
      using False u by (simp add: unsigned_ucast_eq take_bit_nat_eq_self del: of_nat_add of_nat_mult)
    ultimately show ?thesis
      using False by simp
  qed
qed

lemma uint_decode_vol:
  "uint (ucast (decode_vol w) :: u8) = min 255 ((uint (w - 0x8000) * 255 + 0x4400) div 0x8800)"
proof -
  have "int (unat (ucast (decode_vol w) :: u8)) =
          int (min 255 ((unat (w - 0x8000) * 255 + 0x4400) div 0x8800))"
    by (simp only: unat_decode_vol)
  then show ?thesis
    by (simp add: of_nat_min zdiv_int)
qed

lemma u8_less_2: "(c :: u8) < 2 \<Longrightarrow> c = 0 \<or> c = 1"
  by (auto simp: word_less_nat_alt word_unat_eq_iff)

lemma vol_upd_nth: "vol_nth (vol_upd v cn x) cn = x"
  by (simp add: vol_nth_def vol_upd_def)

lemma vol_upd_other:
  "cn < 2 \<Longrightarrow> cn' < 2 \<Longrightarrow> cn' \<noteq> cn \<Longrightarrow> vol_nth (vol_upd v cn x) cn' = vol_nth v cn'"
  by (auto simp: vol_nth_def vol_upd_def dest: u8_less_2)

lemma out_after_set_vol_diag: "out (set_vol_diag s) = out s"
  by (simp add: set_vol_diag_def fprintf_stderr_def)


lemma spec_agrees_above_offset:
  assumes "0x8000 \<le> code" and "code < 0x10000"
  shows "min 255 ((((code - 0x8000) mod 0x10000) * 255 + 0x4400) div 0x8800) = spec_set_cur_volume code"
proof -
  have m: "(code - 0x8000) mod 0x10000 = code - 0x8000"
    using assms by simp
  have "0 \<le> ((code - 0x8000) * 255 + 0x4400) div 0x8800"
    using assms by (simp add: pos_imp_zdiv_nonneg_iff)
  then show ?thesis
    unfolding m spec_set_cur_volume_def by simp
qed

lemma wire_code_bound: "uint (d0 :: u8) + 256 * uint (d1 :: u8) < 0x10000"
  using uint_lt2p [of d0] uint_lt2p [of d1] by simp

text \<open>
  C1, as the code has it. SET CUR of the playback volume control with a
  channel index below 2 takes the code from \<^verbatim>\<open>data[0]\<close> and
  \<^verbatim>\<open>data[1]\<close>, low byte first, and stores
  \<open>min 255 ((((code - 0x8000) mod 0x10000) * 255 + 0x4400) div 0x8800)\<close> in
  \<^verbatim>\<open>out.vol[cn]\<close>: the offset \<open>code - 0x8000\<close> is an unsigned 16-bit
  value, so a code below \<open>0x8000\<close> wraps around and there is no clamp at 0. For a
  code of \<open>0x8000\<close> and above this is the value of the specification's
  formula.
  The other channel, the mute flag and the capture side keep their values,
  and the voice receives the mute flag and both volumes.
\<close>

theorem set_cur_volume_playback:
  assumes "control_cs cscn = 2" and "control_cn cscn < 2" and "2 \<le> length data"
  shows "\<exists>s'. usb_audio_set_control s 0x01 cscn 0x0200 len data = Inr (0, s', data)
           \<and> uint (vol_nth (out_vol (out s')) (control_cn cscn)) =
               min 255 ((((uint (data ! 0) + 256 * uint (data ! 1) - 0x8000) mod 0x10000)
                          * 255 + 0x4400) div 0x8800)
           \<and> (0x8000 \<le> uint (data ! 0) + 256 * uint (data ! 1) \<longrightarrow>
                 uint (vol_nth (out_vol (out s')) (control_cn cscn)) =
                   spec_set_cur_volume (uint (data ! 0) + 256 * uint (data ! 1)))
           \<and> (\<forall>cn'. cn' < 2 \<and> cn' \<noteq> control_cn cscn \<longrightarrow>
                  vol_nth (out_vol (out s')) cn' = vol_nth (out_vol (out s)) cn')
           \<and> out_voice (out s') =
               AUD_set_volume_out (out_voice (out s)) (out_mute (out s))
                 (fst (out_vol (out s'))) (snd (out_vol (out s')))
           \<and> out_mute (out s') = out_mute (out s) \<and> inp s' = inp s"
proof -
  let ?code = "uint (data ! 0) + 256 * uint (data ! 1)"
  have v: "uint (ucast (decode_vol (wire_vol data)) :: u8) =
      min 255 ((((?code - 0x8000) mod 0x10000) * 255 + 0x4400) div 0x8800)"
    by (simp only: uint_decode_vol uint_minus_offset uint_wire_vol)
  have w: "uint (ucast (decode_vol (wire_vol data)) :: u8) = spec_set_cur_volume ?code"
    if "0x8000 \<le> ?code"
    unfolding v using that wire_code_bound by (rule spec_agrees_above_offset)
  show ?thesis
    unfolding set_cur_playback [OF assms]
    using v w assms(2)
    by (auto simp: out_after_set_vol_diag push_volume_out_def fprintf_stderr_def vol_upd_nth vol_upd_other
        set_vol_diag_def)
qed

theorem set_cur_volume_playback_witness:
  "control_cs 0x0201 = 2 \<and> control_cn 0x0201 < 2 \<and> 2 \<le> length [0x00, 0x08 :: u8]
   \<and> (\<exists>s'. usb_audio_set_control blank 0x01 0x0201 0x0200 2 [0x00, 0x08] = Inr (0, s', [0x00, 0x08])
           \<and> uint (vol_nth (out_vol (out s')) (control_cn 0x0201)) = 255)
   \<and> 0x8000 \<le> uint ([0x00, 0xC0 :: u8] ! 0) + 256 * uint ([0x00, 0xC0 :: u8] ! 1)
   \<and> (\<exists>s'. usb_audio_set_control blank 0x01 0x0201 0x0200 2 [0x00, 0xC0] = Inr (0, s', [0x00, 0xC0])
           \<and> uint (vol_nth (out_vol (out s')) (control_cn 0x0201)) = 120
           \<and> spec_set_cur_volume 0xC000 = 120)"
proof -
  have a: "control_cs 0x0201 = 2" and b: "control_cn 0x0201 < 2" and c: "2 \<le> length [0x00, 0x08 :: u8]"
    and c': "2 \<le> length [0x00, 0xC0 :: u8]"
    by (simp_all add: sample_cscn)
  from set_cur_volume_playback [OF a b c, of blank 2]
  obtain s' where s': "usb_audio_set_control blank 0x01 0x0201 0x0200 2 [0x00, 0x08] = Inr (0, s', [0x00, 0x08])"
    "uint (vol_nth (out_vol (out s')) (control_cn 0x0201)) =
           min 255 ((((uint ([0x00, 0x08 :: u8] ! 0) + 256 * uint ([0x00, 0x08 :: u8] ! 1) - 0x8000) mod 0x10000)
                          * 255 + 0x4400) div 0x8800)"
    by blast
  from set_cur_volume_playback [OF a b c', of blank 2]
  obtain t' where t': "usb_audio_set_control blank 0x01 0x0201 0x0200 2 [0x00, 0xC0] = Inr (0, t', [0x00, 0xC0])"
    "0x8000 \<le> uint ([0x00, 0xC0 :: u8] ! 0) + 256 * uint ([0x00, 0xC0 :: u8] ! 1) \<longrightarrow>
       uint (vol_nth (out_vol (out t')) (control_cn 0x0201)) =
         spec_set_cur_volume (uint ([0x00, 0xC0 :: u8] ! 0) + 256 * uint ([0x00, 0xC0 :: u8] ! 1))"
    by blast
  have sp: "spec_set_cur_volume 0xC000 = 120"
    by (simp add: spec_set_cur_volume_def)
  from t'(2) sp have "uint (vol_nth (out_vol (out t')) (control_cn 0x0201)) = 120"
    by simp
  with s' t'(1) sp show ?thesis
    using a b c by (intro conjI exI [of _ s'] exI [of _ t']) simp_all
qed

text \<open>
  C1 as stated fails at the code bytes \<open>{0x00, 0x00}\<close>: with the zero device
  state, the request stores 240 for channel 0, where the specification's
  formula gives 0.
\<close>

theorem set_cur_volume_zero_code_counterexample:
  "usb_audio_set_control blank 0x01 0x0201 0x0200 2 [0x00, 0x00] =
     Inr (0,
          blank\<lparr>out := (out blank)\<lparr>out_vol := (240, 0),
                                     out_voice := (out_voice (out blank))\<lparr>voice_lvol := 240\<rparr>\<rparr>\<rparr>,
          [0x00, 0x00])
   \<and> spec_set_cur_volume (uint ([0x00, 0x00 :: u8] ! 0) + 256 * uint ([0x00, 0x00 :: u8] ! 1)) = 0"
proof -
  have "decode_vol (wire_vol [0x00, 0x00]) = 240"
    by (simp add: decode_vol_def wire_vol_def Let_def)
  then show ?thesis
    by (simp add: set_cur_playback sample_cscn blank_def set_vol_diag_def push_volume_out_def
        vol_upd_def AUD_set_volume_out_def spec_set_cur_volume_def)
qed

subsection \<open>Encoding and decoding\<close>

lemma enc_dec_nat:
  "(((v * 34816 + 127) div 255) * 255 + 17408) div 34816 = (v::nat)"
proof -
  define e where "e = (v * 34816 + 127) div 255"
  have "e * 255 + (v * 34816 + 127) mod 255 = v * 34816 + 127"
    unfolding e_def by simp
  moreover have "(v * 34816 + 127) mod 255 < 255"
    by simp
  ultimately have "34816 * v \<le> e * 255 + 17408" and "e * 255 + 17408 < 34816 * v + 34816"
    by linarith+
  then have "(e * 255 + 17408) div 34816 = v"
    by (intro div_nat_eqI) simp_all
  then show ?thesis
    by (simp add: e_def)
qed

lemma unat_encode_offset: "unat (encode_vol v - 0x8000) = (unat v * 34816 + 127) div 255"
proof -
  have b: "unat v < 256"
    using unsigned_less [of v, where 'a = nat] by simp
  let ?e = "(unat v * 34816 + 127) div 255"
  have e: "?e < 65536" using b by simp
  have "encode_vol v - 0x8000 = (of_nat ?e :: u16)"
    by (simp add: encode_vol_def)
  then have "unat (encode_vol v - 0x8000) = unat (of_nat ?e :: u16)"
    by (rule arg_cong)
  also have "\<dots> = ?e"
    using e by (simp only: unat_of_nat) simp
  finally show ?thesis .
qed

lemma decode_encode: "(ucast (decode_vol (encode_vol v)) :: u8) = v"
proof -
  have b: "unat v < 256"
    using unsigned_less [of v, where 'a = nat] by simp
  have "unat (ucast (decode_vol (encode_vol v)) :: u8) = min 255 (unat v)"
    by (simp only: unat_decode_vol unat_encode_offset enc_dec_nat)
  also have "\<dots> = unat v"
    using b by simp
  finally show ?thesis
    by (simp only: word_unat_eq_iff)
qed

text \<open>
  C3. Whatever volume \<^verbatim>\<open>out.vol[cn]\<close> holds, GET CUR on the playback unit
  returns a 2-byte code, and SET CUR with that code, on any device state,
  stores a volume that differs from it by at most 1.
\<close>

theorem volume_round_trip:
  assumes "control_cs cscn = 2" and "control_cn cscn < 2" and "2 \<le> length data"
  shows "\<exists>d t'. usb_audio_get_control s 0x81 cscn 0x0200 len data = Inr (2, s, d)
           \<and> usb_audio_set_control t 0x01 cscn 0x0200 len' d = Inr (0, t', d)
           \<and> \<bar>uint (vol_nth (out_vol (out t')) (control_cn cscn))
                - uint (vol_nth (out_vol (out s)) (control_cn cscn))\<bar> \<le> 1"
proof -
  let ?v = "vol_nth (out_vol (out s)) (control_cn cscn)"
  let ?d = "ucast (encode_vol ?v) # ucast (drop_bit 8 (encode_vol ?v)) # drop 2 data"
  have g: "usb_audio_get_control s 0x81 cscn 0x0200 len data = Inr (2, s, ?d)"
    using assms by (rule get_cur_playback)
  have l: "2 \<le> length ?d"
    by simp
  let ?t' = "set_vol_diag (push_volume_out
              ((if debug t \<noteq> 0 then fprintf_stderr t (DiagVol (wire_vol ?d)) else t)
                 \<lparr>out := (out t)\<lparr>out_vol :=
                    vol_upd (out_vol (out t)) (control_cn cscn) (ucast (decode_vol (wire_vol ?d)))\<rparr>\<rparr>))"
  have p: "usb_audio_set_control t 0x01 cscn 0x0200 len' ?d = Inr (0, ?t', ?d)"
    using assms(1,2) l by (rule set_cur_playback)
  have "out_vol (out ?t') =
          vol_upd (out_vol (out t)) (control_cn cscn) (ucast (decode_vol (wire_vol ?d)))"
    by (simp add: out_after_set_vol_diag push_volume_out_def)
  then have "vol_nth (out_vol (out ?t')) (control_cn cscn) = ?v"
    by (simp only: vol_upd_nth wire_vol_bytes decode_encode)
  then have "\<bar>uint (vol_nth (out_vol (out ?t')) (control_cn cscn)) - uint ?v\<bar> \<le> 1"
    by simp
  with g p show ?thesis
    by blast
qed

theorem volume_round_trip_witness:
  "control_cs 0x0202 = 2 \<and> control_cn 0x0202 < 2 \<and> 2 \<le> length [0, 0 :: u8]
   \<and> (\<exists>d t'. usb_audio_get_control blank 0x81 0x0202 0x0200 2 [0, 0] = Inr (2, blank, d)
           \<and> usb_audio_set_control blank 0x01 0x0202 0x0200 2 d = Inr (0, t', d)
           \<and> \<bar>uint (vol_nth (out_vol (out t')) (control_cn 0x0202))
                - uint (vol_nth (out_vol (out blank)) (control_cn 0x0202))\<bar> \<le> 1)"
proof -
  have a: "control_cs 0x0202 = 2" and b: "control_cn 0x0202 < 2" and c: "2 \<le> length [0, 0 :: u8]"
    by (simp_all add: sample_cscn)
  show ?thesis
    using volume_round_trip [OF a b c, of blank 2 blank 2] a b c by simp
qed

section \<open>The ring buffer\<close>

subsection \<open>Cursor arithmetic\<close>

lemma used_grow:
  fixes u s k :: u32
  assumes "u \<le> s" and "k \<le> s - u"
  shows "u + k \<le> s"
  using assms by unat_arith

lemma used_shrink:
  fixes u k :: u32
  assumes "k \<le> u"
  shows "u - k \<le> u"
  using assms by unat_arith

lemma len_fits:
  fixes u :: u32 and len :: u64
  assumes "\<not> ucast u < len"
  shows "(ucast len :: u32) \<le> u"
proof -
  have "unat len \<le> unat (ucast u :: u64)"
    using assms by (simp add: word_less_nat_alt not_less)
  also have "unat (ucast u :: u64) = unat u"
    by (simp add: unsigned_ucast_eq take_bit_nat_eq_self unsigned_less [of u, where 'a = nat, simplified]
        less_trans [OF unsigned_less [of u, where 'a = nat, simplified]])
  finally have "unat len \<le> unat u" .
  moreover have "unat (ucast len :: u32) \<le> unat len"
    by (simp add: unsigned_ucast_eq take_bit_eq_mod)
  ultimately show ?thesis
    by (simp add: word_le_nat_alt)
qed

lemma put_keeps:
  assumes "cursors_ok b" and "streambuf_put b p = Inr (n, b', p')"
  shows "cursors_ok b'"
proof -
  let ?u = "buf_prod b - buf_cons b"
  show ?thesis
  proof (cases "buf_size b - ?u = 0")
    case True
    with assms show ?thesis
      by (simp add: streambuf_put_def)
  next
    case False
    with assms(2) have f: "192 \<le> buf_size b - ?u"
      and b': "buf_prod b' = buf_prod b + 192" "buf_cons b' = buf_cons b" "buf_size b' = buf_size b"
      by (auto simp: streambuf_put_def Let_def USBAUDIO_PACKET_SIZE_def split: if_splits sum.splits)
    have g: "?u + 192 \<le> buf_size b"
      using assms(1) f unfolding cursors_ok_def by (rule used_grow)
    have e: "buf_prod b' - buf_cons b' = ?u + 192"
      by (simp add: b')
    show ?thesis
      unfolding cursors_ok_def e b'(3) by (fact g)
  qed
qed

lemma get_keeps:
  assumes "cursors_ok b" and "streambuf_get b len = Inr (r, b')"
  shows "cursors_ok b'"
proof -
  let ?u = "buf_prod b - buf_cons b"
  show ?thesis
  proof (cases "?u = 0 \<or> ucast ?u < len")
    case True
    with assms show ?thesis
      by (auto simp: streambuf_get_def)
  next
    case False
    with assms(2) have b': "buf_prod b' = buf_prod b" "buf_cons b' = buf_cons b + ucast len"
      "buf_size b' = buf_size b"
      by (auto simp: streambuf_get_def Let_def split: if_splits)
    from False have "(ucast len :: u32) \<le> ?u"
      by (simp add: len_fits)
    then have "?u - ucast len \<le> ?u"
      by (rule used_shrink)
    also have "?u \<le> buf_size b"
      using assms(1) by (simp add: cursors_ok_def)
    finally have g: "?u - ucast len \<le> buf_size b" .
    have e: "buf_prod b' - buf_cons b' = ?u - ucast len"
      by (simp add: b')
    show ?thesis
      unfolding cursors_ok_def e b'(3) by (fact g)
  qed
qed

lemma alloc_keeps:
  assumes "cursors_ok b" and "streambuf_alloc b len = Inr (r, b')"
  shows "cursors_ok b'"
proof -
  let ?u = "buf_prod b - buf_cons b"
  show ?thesis
  proof (cases "buf_size b - ?u = 0 \<or> buf_size b - ?u < len")
    case True
    with assms show ?thesis
      by (auto simp: streambuf_alloc_def)
  next
    case False
    with assms(2) have b': "buf_prod b' = buf_prod b + len" "buf_cons b' = buf_cons b"
      "buf_size b' = buf_size b"
      by (auto simp: streambuf_alloc_def Let_def split: if_splits)
    from False have "len \<le> buf_size b - ?u"
      by (simp add: not_less)
    with assms(1) have g: "?u + len \<le> buf_size b"
      unfolding cursors_ok_def by (rule used_grow)
    have e: "buf_prod b' - buf_cons b' = ?u + len"
      by (simp add: b')
    show ?thesis
      unfolding cursors_ok_def e b'(3) by (fact g)
  qed
qed

lemma step_keeps:
  assumes "cursors_ok b" and "sb_step b x = Some b'"
  shows "cursors_ok b'"
  using assms
  by (cases x) (auto split: sum.splits dest: put_keeps get_keeps alloc_keeps)

lemma run_keeps:
  assumes "cursors_ok b" and "sb_run b xs = Some b'"
  shows "cursors_ok b'"
  using assms
proof (induction xs arbitrary: b)
  case Nil
  then show ?case by simp
next
  case (Cons x xs)
  from Cons.prems(2) obtain b1 where s: "sb_step b x = Some b1" and r: "sb_run b1 xs = Some b'"
    by (auto split: option.splits)
  from Cons.prems(1) s have "cursors_ok b1"
    by (rule step_keeps)
  then show ?case
    using r by (rule Cons.IH)
qed

lemma init_fields:
  "buf_prod (streambuf_init b c) = 0" "buf_cons (streambuf_init b c) = 0"
  "buf_size (streambuf_init b c) = c - c mod 192"
  "buf_data (streambuf_init b c) = replicate (unat (c - c mod 192)) 0"
  by (simp_all add: streambuf_init_def USBAUDIO_PACKET_SIZE_def Let_def)

lemma init_ok: "cursors_ok (streambuf_init b c)"
  by (simp add: cursors_ok_def init_fields)

lemma unwrapped:
  fixes p c s :: u32
  assumes "p - c \<le> s" and "unat c + unat s < 2 ^ 32"
  shows "c \<le> p \<and> p \<le> c + s"
proof -
  define u where "u = p - c"
  have p: "p = c + u"
    by (simp add: u_def)
  have us: "unat u \<le> unat s"
    using assms(1) by (simp add: u_def word_le_nat_alt)
  with assms(2) have "unat c + unat u < 2 ^ LENGTH(32)"
    by simp
  then have cu: "unat (c + u) = unat c + unat u"
    by (simp only: unat_add_lem)
  from assms(2) have "unat c + unat s < 2 ^ LENGTH(32)"
    by simp
  then have cs: "unat (c + s) = unat c + unat s"
    by (simp only: unat_add_lem)
  show ?thesis
    unfolding p using us by (simp only: word_le_nat_alt cu cs) simp
qed

text \<open>
  C4. After \<^verbatim>\<open>streambuf_init\<close> both cursors are 0 and the size, which is
  also the length of the storage, is the requested capacity less its
  remainder by the packet size. From there, after every sequence of
  \<^verbatim>\<open>streambuf_put\<close>, \<^verbatim>\<open>streambuf_get\<close> and \<^verbatim>\<open>streambuf_alloc\<close> calls
  that all return, the bytes in use \<^verbatim>\<open>prod - cons\<close>, taken modulo \<open>2 ^ 32\<close>,
  do not exceed the size; where \<^verbatim>\<open>cons + size\<close> does not wrap, this is
  \<^verbatim>\<open>cons \<le> prod \<le> cons + size\<close> as written.
\<close>

theorem streambuf_cursor_invariant:
  "buf_prod (streambuf_init b c) = 0 \<and> buf_cons (streambuf_init b c) = 0
   \<and> buf_size (streambuf_init b c) = c - c mod 192
   \<and> length (buf_data (streambuf_init b c)) = unat (c - c mod 192)
   \<and> (\<forall>ops b'. sb_run (streambuf_init b c) ops = Some b' \<longrightarrow>
          buf_prod b' - buf_cons b' \<le> buf_size b'
          \<and> (unat (buf_cons b') + unat (buf_size b') < 2 ^ 32 \<longrightarrow>
               buf_cons b' \<le> buf_prod b' \<and> buf_prod b' \<le> buf_cons b' + buf_size b'))"
proof -
  have "buf_prod b' - buf_cons b' \<le> buf_size b'
        \<and> (unat (buf_cons b') + unat (buf_size b') < 2 ^ 32 \<longrightarrow>
               buf_cons b' \<le> buf_prod b' \<and> buf_prod b' \<le> buf_cons b' + buf_size b')"
    if "sb_run (streambuf_init b c) ops = Some b'" for ops b'
  proof -
    have "cursors_ok b'"
      using init_ok that by (rule run_keeps)
    then have "buf_prod b' - buf_cons b' \<le> buf_size b'"
      by (simp add: cursors_ok_def)
    then show ?thesis
      using unwrapped by blast
  qed
  then show ?thesis
    by (simp add: init_fields)
qed

lemma sample_put:
  "streambuf_put \<lparr>buf_data = replicate 192 0, buf_size = 192, buf_prod = 0, buf_cons = 0\<rparr>
       (fresh_packet (replicate 192 1)) =
     Inr (192, \<lparr>buf_data = replicate 192 1, buf_size = 192, buf_prod = 192, buf_cons = 0\<rparr>,
          (fresh_packet (replicate 192 1))\<lparr>actual_length := 192\<rparr>)"
  by (simp add: streambuf_put_def usb_packet_copy_def fresh_packet_def USBAUDIO_PACKET_SIZE_def)

lemma sample_get:
  "streambuf_get \<lparr>buf_data = replicate 192 1, buf_size = 192, buf_prod = 192, buf_cons = 0\<rparr> 192 =
     Inr (Some 0, \<lparr>buf_data = replicate 192 1, buf_size = 192, buf_prod = 192, buf_cons = 192\<rparr>)"
  by (simp add: streambuf_get_def)

lemma sample_alloc:
  "streambuf_alloc \<lparr>buf_data = replicate 192 1, buf_size = 192, buf_prod = 192, buf_cons = 192\<rparr> 10 =
     Inr (Some 0, \<lparr>buf_data = replicate 192 1, buf_size = 192, buf_prod = 202, buf_cons = 192\<rparr>)"
  by (simp add: streambuf_alloc_def)

lemma sample_init:
  "streambuf_init \<lparr>buf_data = [], buf_size = 0, buf_prod = 0, buf_cons = 0\<rparr> 200 =
     \<lparr>buf_data = replicate 192 0, buf_size = 192, buf_prod = 0, buf_cons = 0\<rparr>"
  by (simp add: streambuf_init_def USBAUDIO_PACKET_SIZE_def)

lemma sample_run:
  "sb_run (streambuf_init \<lparr>buf_data = [], buf_size = 0, buf_prod = 0, buf_cons = 0\<rparr> 200)
       [Put (fresh_packet (replicate 192 1)), Get 192, Alloc 10] =
     Some \<lparr>buf_data = replicate 192 1, buf_size = 192, buf_prod = 202, buf_cons = 192\<rparr>"
  by (simp add: sample_init sample_put sample_get sample_alloc)

theorem streambuf_cursor_invariant_witness:
  "sb_run (streambuf_init \<lparr>buf_data = [], buf_size = 0, buf_prod = 0, buf_cons = 0\<rparr> 200)
       [Put (fresh_packet (replicate 192 1)), Get 192, Alloc 10] =
     Some \<lparr>buf_data = replicate 192 1, buf_size = 192, buf_prod = 202, buf_cons = 192\<rparr>
   \<and> (202 :: u32) - 192 \<le> 192
   \<and> unat (192 :: u32) + unat (192 :: u32) < 2 ^ 32
   \<and> (192 :: u32) \<le> 202 \<and> (202 :: u32) \<le> 192 + 192"
  using streambuf_cursor_invariant [of "\<lparr>buf_data = [], buf_size = 0, buf_prod = 0, buf_cons = 0\<rparr>" 200]
    sample_run
  by simp

subsection \<open>Writing a packet\<close>

lemma copy_result:
  assumes "actual_length p + n \<le> length (iov p)" and "off + n \<le> length mem"
  shows "\<exists>mem'. usb_packet_copy p mem off n = Inr (p\<lparr>actual_length := actual_length p + n\<rparr>, mem')
           \<and> length mem' = length mem
           \<and> (\<forall>i < length mem. mem' ! i =
                 (if off \<le> i \<and> i < off + n then iov p ! (actual_length p + (i - off)) else mem ! i))"
proof -
  let ?mem' = "take off mem @ take n (drop (actual_length p) (iov p)) @ drop (off + n) mem"
  have r: "usb_packet_copy p mem off n = Inr (p\<lparr>actual_length := actual_length p + n\<rparr>, ?mem')"
    using assms by (simp add: usb_packet_copy_def)
  have l: "length ?mem' = length mem"
    using assms by simp
  have "?mem' ! i = (if off \<le> i \<and> i < off + n then iov p ! (actual_length p + (i - off)) else mem ! i)"
    if "i < length mem" for i
    using that assms by (auto simp: nth_append)
  with r l show ?thesis
    by blast
qed

lemma copy_Inr:
  assumes "usb_packet_copy p mem off n = Inr (p', mem')"
  shows "actual_length p + n \<le> length (iov p) \<and> off + n \<le> length mem
         \<and> p' = p\<lparr>actual_length := actual_length p + n\<rparr>"
  using assms by (auto simp: usb_packet_copy_def split: if_splits)

text \<open>
  What \<^verbatim>\<open>streambuf_put\<close> does, by the free space
  \<^verbatim>\<open>size - (prod - cons)\<close>. If it is 0, the call returns 0 and leaves the
  buffer and the packet as they were. If it is not 0 and below the packet
  size, the assertion \<^verbatim>\<open>free >= USBAUDIO_PACKET_SIZE\<close> fails. If it is at
  least the packet size, the chunk lies inside the storage and the payload
  holds 192 more bytes, the call copies them to offset \<^verbatim>\<open>prod % size\<close>,
  changes no other byte, advances \<^verbatim>\<open>prod\<close> by 192 and returns 192. Whenever
  the call returns, it has written nothing or a whole packet.
\<close>

lemma streambuf_put_cases:
  "(buf_size b - (buf_prod b - buf_cons b) = 0 \<longrightarrow> streambuf_put b p = Inr (0, b, p))
 \<and> (buf_size b - (buf_prod b - buf_cons b) \<noteq> 0 \<and> buf_size b - (buf_prod b - buf_cons b) < 192
      \<longrightarrow> streambuf_put b p = Inl AssertionFailed)
 \<and> (192 \<le> buf_size b - (buf_prod b - buf_cons b) \<and> buf_size b \<noteq> 0
      \<and> unat (buf_prod b mod buf_size b) + 192 \<le> length (buf_data b)
      \<and> actual_length p + 192 \<le> length (iov p)
      \<longrightarrow> (\<exists>mem. streambuf_put b p =
                   Inr (192, b\<lparr>buf_data := mem, buf_prod := buf_prod b + 192\<rparr>,
                        p\<lparr>actual_length := actual_length p + 192\<rparr>)
               \<and> length mem = length (buf_data b)
               \<and> (\<forall>i < length mem. mem ! i =
                     (if unat (buf_prod b mod buf_size b) \<le> i \<and> i < unat (buf_prod b mod buf_size b) + 192
                      then iov p ! (actual_length p + (i - unat (buf_prod b mod buf_size b)))
                      else buf_data b ! i))))
 \<and> (\<forall>n b' p'. streambuf_put b p = Inr (n, b', p') \<longrightarrow>
        n = 0 \<and> b' = b \<and> p' = p
      \<or> n = 192 \<and> buf_prod b' = buf_prod b + 192 \<and> buf_cons b' = buf_cons b
          \<and> actual_length p' = actual_length p + 192)"
proof (intro conjI impI allI)
  assume "buf_size b - (buf_prod b - buf_cons b) = 0"
  then show "streambuf_put b p = Inr (0, b, p)"
    by (simp add: streambuf_put_def)
next
  assume "buf_size b - (buf_prod b - buf_cons b) \<noteq> 0 \<and> buf_size b - (buf_prod b - buf_cons b) < 192"
  then show "streambuf_put b p = Inl AssertionFailed"
    by (simp add: streambuf_put_def USBAUDIO_PACKET_SIZE_def not_le)
next
  let ?off = "unat (buf_prod b mod buf_size b)"
  assume a: "192 \<le> buf_size b - (buf_prod b - buf_cons b) \<and> buf_size b \<noteq> 0
      \<and> ?off + 192 \<le> length (buf_data b) \<and> actual_length p + 192 \<le> length (iov p)"
  then have f: "buf_size b - (buf_prod b - buf_cons b) \<noteq> 0"
    by auto
  from a obtain mem where
    c: "usb_packet_copy p (buf_data b) ?off 192 = Inr (p\<lparr>actual_length := actual_length p + 192\<rparr>, mem)"
    and l: "length mem = length (buf_data b)"
    and m: "\<forall>i < length (buf_data b). mem ! i =
              (if ?off \<le> i \<and> i < ?off + 192 then iov p ! (actual_length p + (i - ?off))
               else buf_data b ! i)"
    using copy_result [of p 192 ?off "buf_data b"] by blast
  have "streambuf_put b p =
          Inr (192, b\<lparr>buf_data := mem, buf_prod := buf_prod b + 192\<rparr>,
               p\<lparr>actual_length := actual_length p + 192\<rparr>)"
    using a f c by (simp add: streambuf_put_def USBAUDIO_PACKET_SIZE_def)
  with l m show "\<exists>mem. streambuf_put b p =
                   Inr (192, b\<lparr>buf_data := mem, buf_prod := buf_prod b + 192\<rparr>,
                        p\<lparr>actual_length := actual_length p + 192\<rparr>)
               \<and> length mem = length (buf_data b)
               \<and> (\<forall>i < length mem. mem ! i =
                     (if ?off \<le> i \<and> i < ?off + 192
                      then iov p ! (actual_length p + (i - ?off))
                      else buf_data b ! i))"
    by auto
next
  fix n b' p'
  assume "streambuf_put b p = Inr (n, b', p')"
  then show "n = 0 \<and> b' = b \<and> p' = p
      \<or> n = 192 \<and> buf_prod b' = buf_prod b + 192 \<and> buf_cons b' = buf_cons b
          \<and> actual_length p' = actual_length p + 192"
    by (auto simp: streambuf_put_def Let_def USBAUDIO_PACKET_SIZE_def
        split: if_splits sum.splits dest!: copy_Inr)
qed


subsection \<open>Reading\<close>

lemma aligned_offset:
  fixes S C n :: nat
  assumes "192 dvd S" and "192 dvd C" and "S \<noteq> 0" and "n \<le> 192"
  shows "C mod S + n \<le> S"
proof -
  from assms(1,2) obtain m c where S: "S = 192 * m" and C: "C = 192 * c"
    by (auto elim!: dvdE)
  from assms(3) S have m: "0 < m"
    by simp
  have "C mod S = 192 * (c mod m)"
    unfolding S C by (rule mult_mod_right [symmetric])
  moreover have "c mod m + 1 \<le> m"
    using m by (simp add: Suc_leI)
  then have "192 * (c mod m) + 192 \<le> 192 * m"
    by simp
  ultimately show ?thesis
    using assms(4) S by simp
qed

text \<open>
  C6, as the code has it. For a buffer of non-zero size, \<^verbatim>\<open>streambuf_get\<close>
  returns the pointer to offset \<^verbatim>\<open>cons % size\<close> and advances \<^verbatim>\<open>cons\<close> by
  the length when the bytes in use \<^verbatim>\<open>prod - cons\<close> are not 0 and at least
  the length; when they are 0 or fewer than the length it returns \<^verbatim>\<open>NULL\<close>
  and changes neither cursor. The bytes from the returned offset on are a
  contiguous view inside the storage when the size and the consumer cursor
  are multiples of the packet size and the length is at most one packet.
  Nothing is said about where the view ends for other cursors and lengths.
\<close>

theorem streambuf_get_cases:
  "(buf_prod b - buf_cons b \<noteq> 0 \<and> len \<le> ucast (buf_prod b - buf_cons b) \<and> buf_size b \<noteq> 0
      \<longrightarrow> streambuf_get b len =
            Inr (Some (unat (buf_cons b) mod unat (buf_size b)),
                 b\<lparr>buf_cons := buf_cons b + ucast len\<rparr>)
          \<and> unat (buf_cons b + ucast len) = (unat (buf_cons b) + unat len) mod 2 ^ 32)
 \<and> (buf_prod b - buf_cons b = 0 \<or> ucast (buf_prod b - buf_cons b) < len
      \<longrightarrow> streambuf_get b len = Inr (None, b))
 \<and> (192 dvd unat (buf_size b) \<and> 192 dvd unat (buf_cons b) \<and> buf_size b \<noteq> 0
      \<and> length (buf_data b) = unat (buf_size b) \<and> unat len \<le> 192
      \<longrightarrow> unat (buf_cons b) mod unat (buf_size b) + unat len \<le> length (buf_data b))"
proof (intro conjI impI)
  assume a: "buf_prod b - buf_cons b \<noteq> 0 \<and> len \<le> ucast (buf_prod b - buf_cons b) \<and> buf_size b \<noteq> 0"
  then show "streambuf_get b len =
            Inr (Some (unat (buf_cons b) mod unat (buf_size b)),
                 b\<lparr>buf_cons := buf_cons b + ucast len\<rparr>)"
    by (simp add: streambuf_get_def not_less unat_mod_distrib)
  have "unat len \<le> unat (ucast (buf_prod b - buf_cons b) :: u64)"
    using a by (simp add: word_le_nat_alt)
  also have "\<dots> < 2 ^ 32"
    using unsigned_less [of "buf_prod b - buf_cons b", where 'a = nat]
    by (simp add: unsigned_ucast_eq take_bit_nat_eq_self)
  finally have "unat (ucast len :: u32) = unat len"
    by (simp add: unsigned_ucast_eq take_bit_nat_eq_self)
  then show "unat (buf_cons b + ucast len) = (unat (buf_cons b) + unat len) mod 2 ^ 32"
    by (simp add: unat_word_ariths)
next
  assume "buf_prod b - buf_cons b = 0 \<or> ucast (buf_prod b - buf_cons b) < len"
  then show "streambuf_get b len = Inr (None, b)"
    by (auto simp: streambuf_get_def)
next
  assume a: "192 dvd unat (buf_size b) \<and> 192 dvd unat (buf_cons b) \<and> buf_size b \<noteq> 0
      \<and> length (buf_data b) = unat (buf_size b) \<and> unat len \<le> 192"
  then have "unat (buf_size b) \<noteq> 0"
    by (simp add: unat_eq_0)
  with a have "unat (buf_cons b) mod unat (buf_size b) + unat len \<le> unat (buf_size b)"
    by (intro aligned_offset) simp_all
  with a show "unat (buf_cons b) mod unat (buf_size b) + unat len \<le> length (buf_data b)"
    by simp
qed

theorem streambuf_get_cases_witness:
  "streambuf_get \<lparr>buf_data = replicate 384 1, buf_size = 384, buf_prod = 576, buf_cons = 192\<rparr> 192 =
     Inr (Some 192, \<lparr>buf_data = replicate 384 1, buf_size = 384, buf_prod = 576, buf_cons = 384\<rparr>)
   \<and> streambuf_get \<lparr>buf_data = replicate 384 1, buf_size = 384, buf_prod = 576, buf_cons = 192\<rparr> 385 =
     Inr (None, \<lparr>buf_data = replicate 384 1, buf_size = 384, buf_prod = 576, buf_cons = 192\<rparr>)
   \<and> (192 :: nat) dvd unat (384 :: u32) \<and> (192 :: nat) dvd unat (192 :: u32)
   \<and> 192 + unat (192 :: u64) \<le> length (replicate 384 (1 :: u8))"
  using streambuf_get_cases [of "\<lparr>buf_data = replicate 384 1, buf_size = 384, buf_prod = 576, buf_cons = 192\<rparr>" 192]
    streambuf_get_cases [of "\<lparr>buf_data = replicate 384 1, buf_size = 384, buf_prod = 576, buf_cons = 192\<rparr>" 385]
  by (simp add: word_less_nat_alt word_le_nat_alt)

text \<open>
  C6 as stated fails in two places. For the length 0 on an empty buffer,
  \<^verbatim>\<open>prod - cons\<close> is 0, which is at least the length, and the call returns
  \<^verbatim>\<open>NULL\<close>. And the view need not be contiguous: on a buffer of 384 bytes,
  two reservations of 192 bytes, reads of 100 and 192 bytes and one more
  reservation leave 284 bytes in use from offset 292, and a read of 192 bytes
  then returns offset 292, with the view ending 100 bytes past the storage.
\<close>

theorem streambuf_get_counterexample:
  "streambuf_get \<lparr>buf_data = replicate 192 0, buf_size = 192, buf_prod = 0, buf_cons = 0\<rparr> 0 =
     Inr (None, \<lparr>buf_data = replicate 192 0, buf_size = 192, buf_prod = 0, buf_cons = 0\<rparr>)
   \<and> sb_run (streambuf_init \<lparr>buf_data = [], buf_size = 0, buf_prod = 0, buf_cons = 0\<rparr> 384)
         [Alloc 192, Alloc 192, Get 100, Get 192, Alloc 192] =
       Some \<lparr>buf_data = replicate 384 0, buf_size = 384, buf_prod = 576, buf_cons = 292\<rparr>
   \<and> streambuf_get \<lparr>buf_data = replicate 384 0, buf_size = 384, buf_prod = 576, buf_cons = 292\<rparr> 192 =
       Inr (Some 292, \<lparr>buf_data = replicate 384 0, buf_size = 384, buf_prod = 576, buf_cons = 484\<rparr>)
   \<and> length (replicate 384 (0 :: u8)) < 292 + 192"
  by (simp add: streambuf_get_def streambuf_alloc_def streambuf_init_def USBAUDIO_PACKET_SIZE_def
      word_less_nat_alt)

section \<open>Alternate settings and playback data\<close>

text \<open>
  C8, as the code has it. For a requested alternate setting other than
  \<^verbatim>\<open>ALTSET_OFF\<close> and \<^verbatim>\<open>ALTSET_ON\<close>, both transition functions return -1
  and change nothing, and \<^verbatim>\<open>usb_audio_set_interface\<close> for interface 1 or 2
  leaves the state as it was. \<^verbatim>\<open>usb_audio_set_interface\<close> returns
  \<^verbatim>\<open>void\<close>: the -1 does not reach its caller.
\<close>

theorem invalid_altset_rejected:
  assumes "altset \<noteq> ALTSET_OFF" and "altset \<noteq> ALTSET_ON"
  shows "usb_audio_set_output_altset s altset = (- 1, s)
       \<and> usb_audio_set_input_altset s altset = (- 1, s)
       \<and> usb_audio_set_interface s 1 old altset = s
       \<and> usb_audio_set_interface s 2 old altset = s"
  using assms
  by (simp add: usb_audio_set_output_altset_def usb_audio_set_input_altset_def
      usb_audio_set_interface_def)

theorem invalid_altset_rejected_witness:
  "(2 :: int) \<noteq> ALTSET_OFF \<and> (2 :: int) \<noteq> ALTSET_ON
   \<and> usb_audio_set_output_altset blank 2 = (- 1, blank)
   \<and> usb_audio_set_input_altset blank 2 = (- 1, blank)
   \<and> usb_audio_set_interface blank 1 0 2 = blank
   \<and> usb_audio_set_interface blank 2 0 2 = blank"
proof -
  have a: "(2 :: int) \<noteq> ALTSET_OFF" and b: "(2 :: int) \<noteq> ALTSET_ON"
    by (simp_all add: ALTSET_OFF_def ALTSET_ON_def)
  show ?thesis
    using invalid_altset_rejected [OF a b, of blank 0] a b by simp
qed

text \<open>
  C8 as stated fails at \<^verbatim>\<open>usb_audio_set_interface\<close>: the transition function
  returns -1 for the value 2, but all that the call for interface 1 and value
  2 produces is the unchanged state, with no diagnostic even with
  \<^verbatim>\<open>debug\<close> set, the same as a call for an interface the device does not
  have.
\<close>

theorem set_interface_drops_error_counterexample:
  "fst (usb_audio_set_output_altset (blank\<lparr>debug := 1\<rparr>) 2) = - 1
   \<and> usb_audio_set_interface (blank\<lparr>debug := 1\<rparr>) 1 0 2 = blank\<lparr>debug := 1\<rparr>
   \<and> usb_audio_set_interface (blank\<lparr>debug := 1\<rparr>) 1 0 2 = usb_audio_set_interface (blank\<lparr>debug := 1\<rparr>) 3 0 2"
  by (simp add: usb_audio_set_output_altset_def usb_audio_set_interface_def ALTSET_OFF_def ALTSET_ON_def)

text \<open>
  What \<^verbatim>\<open>usb_audio_handle_dataout\<close> does with a packet that arrives with
  status success. It returns the packet with the stall status exactly when
  the playback alternate setting is \<^verbatim>\<open>ALTSET_OFF\<close>, and then nothing else
  changes. With any other setting and a full buffer the call returns with the
  packet untouched, status included, and the state unchanged except for the
  overrun diagnostic, which is written when \<^verbatim>\<open>debug > 1\<close> and the payload
  is not empty. With room for a packet, the chunk inside the storage and a
  payload of 192 more bytes, the call returns with status success and one
  packet taken over.
\<close>

lemma dataout_stalls_iff_off:
  assumes "status p = USB_RET_SUCCESS"
  shows "((\<exists>s' p'. usb_audio_handle_dataout s p = Inr (s', p') \<and> status p' = USB_RET_STALL)
            \<longleftrightarrow> out_altset (out s) = ALTSET_OFF)
       \<and> (out_altset (out s) = ALTSET_OFF \<longrightarrow>
             usb_audio_handle_dataout s p = Inr (s, p\<lparr>status := USB_RET_STALL\<rparr>))
       \<and> (out_altset (out s) \<noteq> ALTSET_OFF
            \<and> buf_size (out_buf (out s)) - (buf_prod (out_buf (out s)) - buf_cons (out_buf (out s))) = 0 \<longrightarrow>
             usb_audio_handle_dataout s p =
               Inr (if actual_length p < length (iov p) \<and> 1 < debug s
                    then s\<lparr>stderr := stderr s @ [DiagOverrun (length (iov p) - actual_length p)]\<rparr>
                    else s,
                    p))
       \<and> (out_altset (out s) \<noteq> ALTSET_OFF
            \<and> 192 \<le> buf_size (out_buf (out s)) - (buf_prod (out_buf (out s)) - buf_cons (out_buf (out s)))
            \<and> buf_size (out_buf (out s)) \<noteq> 0
            \<and> unat (buf_prod (out_buf (out s)) mod buf_size (out_buf (out s))) + 192
                 \<le> length (buf_data (out_buf (out s)))
            \<and> actual_length p + 192 \<le> length (iov p) \<longrightarrow>
             (\<exists>s' p'. usb_audio_handle_dataout s p = Inr (s', p')
                \<and> status p' = USB_RET_SUCCESS \<and> actual_length p' = actual_length p + 192
                \<and> buf_prod (out_buf (out s')) = buf_prod (out_buf (out s)) + 192
                \<and> buf_cons (out_buf (out s')) = buf_cons (out_buf (out s))))"
proof (intro conjI impI)
  have ns: "USB_RET_SUCCESS \<noteq> USB_RET_STALL"
    by (simp add: USB_RET_SUCCESS_def USB_RET_STALL_def)
  have keep: "status p' = status p" if "streambuf_put b p = Inr (n, b', p')" for b n b' p'
    using that
    by (auto simp: streambuf_put_def Let_def usb_packet_copy_def split: if_splits sum.splits)
  show "(\<exists>s' p'. usb_audio_handle_dataout s p = Inr (s', p') \<and> status p' = USB_RET_STALL)
            \<longleftrightarrow> out_altset (out s) = ALTSET_OFF"
  proof
    assume "\<exists>s' p'. usb_audio_handle_dataout s p = Inr (s', p') \<and> status p' = USB_RET_STALL"
    then obtain s' p' where r: "usb_audio_handle_dataout s p = Inr (s', p')"
      and st: "status p' = USB_RET_STALL"
      by blast
    show "out_altset (out s) = ALTSET_OFF"
    proof (rule ccontr)
      assume "out_altset (out s) \<noteq> ALTSET_OFF"
      with r obtain n b where "streambuf_put (out_buf (out s)) p = Inr (n, b, p')"
        by (auto simp: usb_audio_handle_dataout_def Let_def split: sum.splits)
      then have "status p' = status p"
        by (rule keep)
      with st assms ns show False
        by simp
    qed
  next
    assume "out_altset (out s) = ALTSET_OFF"
    then show "\<exists>s' p'. usb_audio_handle_dataout s p = Inr (s', p') \<and> status p' = USB_RET_STALL"
      by (simp add: usb_audio_handle_dataout_def)
  qed
next
  assume "out_altset (out s) = ALTSET_OFF"
  then show "usb_audio_handle_dataout s p = Inr (s, p\<lparr>status := USB_RET_STALL\<rparr>)"
    by (simp add: usb_audio_handle_dataout_def)
next
  assume "out_altset (out s) \<noteq> ALTSET_OFF
            \<and> buf_size (out_buf (out s)) - (buf_prod (out_buf (out s)) - buf_cons (out_buf (out s))) = 0"
  then show "usb_audio_handle_dataout s p =
               Inr (if actual_length p < length (iov p) \<and> 1 < debug s
                    then s\<lparr>stderr := stderr s @ [DiagOverrun (length (iov p) - actual_length p)]\<rparr>
                    else s,
                    p)"
    by (simp add: usb_audio_handle_dataout_def streambuf_put_def fprintf_stderr_def)
next
  let ?b = "out_buf (out s)"
  assume a: "out_altset (out s) \<noteq> ALTSET_OFF
            \<and> 192 \<le> buf_size ?b - (buf_prod ?b - buf_cons ?b)
            \<and> buf_size ?b \<noteq> 0
            \<and> unat (buf_prod ?b mod buf_size ?b) + 192 \<le> length (buf_data ?b)
            \<and> actual_length p + 192 \<le> length (iov p)"
  then have f: "buf_size ?b - (buf_prod ?b - buf_cons ?b) \<noteq> 0"
    by auto
  from a have c: "usb_packet_copy p (buf_data ?b) (unat (buf_prod ?b mod buf_size ?b)) 192 =
      Inr (p\<lparr>actual_length := actual_length p + 192\<rparr>,
           take (unat (buf_prod ?b mod buf_size ?b)) (buf_data ?b)
             @ take 192 (drop (actual_length p) (iov p))
             @ drop (unat (buf_prod ?b mod buf_size ?b) + 192) (buf_data ?b))"
    by (simp add: usb_packet_copy_def)
  show "\<exists>s' p'. usb_audio_handle_dataout s p = Inr (s', p')
                \<and> status p' = USB_RET_SUCCESS \<and> actual_length p' = actual_length p + 192
                \<and> buf_prod (out_buf (out s')) = buf_prod ?b + 192
                \<and> buf_cons (out_buf (out s')) = buf_cons ?b"
    using a f c assms
    by (simp add: usb_audio_handle_dataout_def streambuf_put_def USBAUDIO_PACKET_SIZE_def
        fprintf_stderr_def Let_def)
qed


end
